theory Spec2Isabelle
  imports Main
begin

section \<open>The echo tool: \<^verbatim>\<open>examples/utcp_tools/echo.py\<close>\<close>

text \<open>
  The program is one function:
  \<^verbatim>\<open>
  def main():
      try:
          args = json.loads(sys.argv[1]) if len(sys.argv) > 1 else {}
      except json.JSONDecodeError:
          args = {}

      text = args.get("text", "")
      print(json.dumps({"content": f"echo: {text}"}))
  \<close>
  It calls four pieces of the Python runtime: \<^verbatim>\<open>json.loads\<close>, \<^verbatim>\<open>dict.get\<close>, the
  conversion of an f-string field and \<^verbatim>\<open>json.dumps\<close>. They are modelled below after
  CPython 3.11 (\<^verbatim>\<open>json/decoder.py\<close>, the scanner of \<^verbatim>\<open>_json.c\<close>, \<^verbatim>\<open>json/encoder.py\<close>), so
  that \<open>main\<close> can be run on the text of a command line. The model of \<^verbatim>\<open>json.loads\<close>
  has the two limits of the interpreter that an argument can reach: the limit on the
  digits of an \<^verbatim>\<open>int\<close> and the recursion limit.
\<close>

subsection \<open>Python values\<close>

text \<open>
  A Python \<^verbatim>\<open>str\<close> is a sequence of code points, so it is a list of naturals here and
  not a list of 8-bit \<^typ>\<open>char\<close>s. \<open>lit\<close> turns an ASCII literal into such a string.
\<close>

type_synonym pystr = "nat list"

abbreviation ch :: "char \<Rightarrow> nat" where
  "ch c \<equiv> of_char c"

definition lit :: "string \<Rightarrow> pystr" where
  "lit s = map ch s"

text \<open>
  The values \<^verbatim>\<open>json.loads\<close> can return. A \<^verbatim>\<open>dict\<close> keeps its insertion order, so it is
  an association list with distinct keys. A \<^verbatim>\<open>float\<close> is kept as the text of the JSON
  number it was read from: the program never computes with it, it only formats it.
\<close>

datatype pyval =
    PNone
  | PBool bool
  | PInt int
  | PFloat pystr
  | PStr pystr
  | PList "pyval list"
  | PDict "(pystr \<times> pyval) list"

text \<open>
  The exceptions: the four that can leave \<^verbatim>\<open>json.loads\<close> or \<^verbatim>\<open>args.get\<close>, and
  \<^verbatim>\<open>StopIteration\<close>, which the scanner raises and \<^verbatim>\<open>raw_decode\<close> catches.
\<close>

datatype py_error =
  JSONDecodeError | StopIteration | ValueError | RecursionError | AttributeError

text \<open>
  The limits of the interpreter that the program runs in.
  \<^item> \<open>int_max_str_digits\<close> is \<^verbatim>\<open>sys.get_int_max_str_digits()\<close>: 4300 unless the environment
    variable \<^verbatim>\<open>PYTHONINTMAXSTRDIGITS\<close> or the option \<^verbatim>\<open>-X int_max_str_digits\<close> sets another
    value; 0 means no limit.
  \<^item> \<open>recursion_limit\<close> is how deep the scanner can go when \<open>main\<close> calls \<^verbatim>\<open>json.loads\<close>:
    \<^verbatim>\<open>Py_EnterRecursiveCall\<close> fails when a container is opened inside that many others.
    It is what the frames of the program leave of \<^verbatim>\<open>sys.getrecursionlimit()\<close>.
  \<^item> \<open>errmsg_frames\<close> is the depth that \<^verbatim>\<open>raise_errmsg\<close> needs to build a
    \<^verbatim>\<open>JSONDecodeError\<close>, whose \<^verbatim>\<open>__init__\<close> is Python code; \<open>constant_frames\<close> is what the
    call of \<^verbatim>\<open>parse_constant\<close> needs. When the depth is not there, the exception is
    \<^verbatim>\<open>RecursionError\<close>.
\<close>

record limits =
  int_max_str_digits :: nat
  recursion_limit :: nat
  errmsg_frames :: nat
  constant_frames :: nat

subsection \<open>\<^verbatim>\<open>json.loads\<close>\<close>

text \<open>
  The decoder works on the rest of the input where the code keeps an index into the
  whole string. The scanning functions take the limits and the number \<open>k\<close> of containers
  that are open where they work, and return the exception or the value and the rest of
  the input.
\<close>

definition is_ws :: "nat \<Rightarrow> bool" where
  "is_ws c \<longleftrightarrow> c = 32 \<or> c = 9 \<or> c = 10 \<or> c = 13"

definition skip_ws :: "pystr \<Rightarrow> pystr" where
  "skip_ws s = dropWhile is_ws s"

definition hexval :: "nat \<Rightarrow> nat option" where
  "hexval c =
     (if ch CHR ''0'' \<le> c \<and> c \<le> ch CHR ''9'' then Some (c - ch CHR ''0'')
      else if ch CHR ''A'' \<le> c \<and> c \<le> ch CHR ''F'' then Some (c - ch CHR ''A'' + 10)
      else if ch CHR ''a'' \<le> c \<and> c \<le> ch CHR ''f'' then Some (c - ch CHR ''a'' + 10)
      else None)"

text \<open>\<^verbatim>\<open>_decode_uXXXX\<close>: the four hexadecimal digits after \<^verbatim>\<open>\u\<close>.\<close>

definition decode_uXXXX :: "pystr \<Rightarrow> nat option" where
  "decode_uXXXX s =
     (case map hexval (take 4 s) of
        [Some a, Some b, Some c, Some d] \<Rightarrow> Some (((a * 16 + b) * 16 + c) * 16 + d)
      | _ \<Rightarrow> None)"

text \<open>The table \<^verbatim>\<open>BACKSLASH\<close> of the one-letter escapes; 92 is the backslash.\<close>

definition BACKSLASH :: "nat \<rightharpoonup> nat" where
  \<open>BACKSLASH = map_of
     [(ch CHR ''"'', ch CHR ''"''), (92, 92), (ch CHR ''/'', ch CHR ''/''),
      (ch CHR ''b'', 8), (ch CHR ''f'', 12), (ch CHR ''n'', 10), (ch CHR ''r'', 13),
      (ch CHR ''t'', 9)]\<close>

definition chunk :: "nat \<Rightarrow> (pystr \<times> pystr) option \<Rightarrow> (pystr \<times> pystr) option" where
  "chunk c r = (case r of None \<Rightarrow> None | Some (str, rest) \<Rightarrow> Some (c # str, rest))"

text \<open>
  \<^verbatim>\<open>scanstring\<close> in strict mode, from the character after the opening quote: the decoded
  string and the input after the closing quote. A surrogate pair written as two
  \<^verbatim>\<open>\u\<close> escapes becomes one code point:
  \<^verbatim>\<open>0x10000 + (((uni - 0xd800) << 10) | (uni2 - 0xdc00))\<close>, where the shift and the
  \<^verbatim>\<open>|\<close> are a multiplication and an addition since \<^verbatim>\<open>uni2 - 0xdc00 < 1024\<close>.
\<close>

function scanstring :: "pystr \<Rightarrow> (pystr \<times> pystr) option" where
  "scanstring [] = None"
| \<open>scanstring (c # s) =
     (if c = ch CHR ''"'' then Some ([], s)
      else if c = 92 then
        (case s of
           [] \<Rightarrow> None
         | esc # s' \<Rightarrow>
             if esc \<noteq> ch CHR ''u'' then
               (case BACKSLASH esc of
                  None \<Rightarrow> None
                | Some char \<Rightarrow> chunk char (scanstring s'))
             else
               (case decode_uXXXX s' of
                  None \<Rightarrow> None
                | Some uni \<Rightarrow>
                    if 0xd800 \<le> uni \<and> uni \<le> 0xdbff \<and> take 2 (drop 4 s') = [92, ch CHR ''u''] then
                      (case decode_uXXXX (drop 6 s') of
                         None \<Rightarrow> None
                       | Some uni2 \<Rightarrow>
                           if 0xdc00 \<le> uni2 \<and> uni2 \<le> 0xdfff then
                             chunk (0x10000 + ((uni - 0xd800) * 1024 + (uni2 - 0xdc00)))
                               (scanstring (drop 10 s'))
                           else chunk uni (scanstring (drop 4 s')))
                    else chunk uni (scanstring (drop 4 s'))))
      else if c < 0x20 then None
      else chunk c (scanstring s))\<close>
  by pat_completeness auto
termination
  by (relation "measure length") auto

text \<open>
  A number, as the scanner matches it:
  \<^verbatim>\<open>(-?(?:0|[1-9][0-9]*))(\.[0-9]+)?([eE][-+]?[0-9]+)?\<close>. Without a fraction and an exponent
  it is an \<^verbatim>\<open>int\<close>, otherwise a \<^verbatim>\<open>float\<close>.
\<close>

definition is_digit :: "nat \<Rightarrow> bool" where
  "is_digit c \<longleftrightarrow> ch CHR ''0'' \<le> c \<and> c \<le> ch CHR ''9''"

definition match_integer :: "pystr \<Rightarrow> (pystr \<times> pystr) option" where
  "match_integer s =
     (let (sign, s1) =
            (case s of [] \<Rightarrow> ([], []) | c # r \<Rightarrow> if c = ch CHR ''-'' then ([c], r) else ([], s))
      in case s1 of
           [] \<Rightarrow> None
         | d # r \<Rightarrow>
             if d = ch CHR ''0'' then Some (sign @ [d], r)
             else if ch CHR ''1'' \<le> d \<and> d \<le> ch CHR ''9''
               then Some (sign @ d # takeWhile is_digit r, dropWhile is_digit r)
             else None)"

definition match_frac :: "pystr \<Rightarrow> pystr \<times> pystr" where
  "match_frac s =
     (case s of
        p # d # r \<Rightarrow>
          if p = ch CHR ''.'' \<and> is_digit d
            then (p # takeWhile is_digit (d # r), dropWhile is_digit (d # r))
          else ([], s)
      | _ \<Rightarrow> ([], s))"

definition match_exp :: "pystr \<Rightarrow> pystr \<times> pystr" where
  "match_exp s =
     (case s of
        [] \<Rightarrow> ([], s)
      | e # r \<Rightarrow>
          if e = ch CHR ''e'' \<or> e = ch CHR ''E'' then
            (let (sign, r') =
                   (case r of [] \<Rightarrow> ([], []) | c # t \<Rightarrow>
                      if c = ch CHR ''+'' \<or> c = ch CHR ''-'' then ([c], t) else ([], r))
             in case r' of
                  [] \<Rightarrow> ([], s)
                | d # t \<Rightarrow>
                    if is_digit d
                      then (e # sign @ takeWhile is_digit r', dropWhile is_digit r')
                    else ([], s))
          else ([], s))"

definition decimal :: "pystr \<Rightarrow> nat" where
  "decimal ds = foldl (\<lambda>a d. 10 * a + (d - ch CHR ''0'')) 0 ds"

text \<open>
  \<^verbatim>\<open>PyLong_FromString\<close> on the text of an integer. A text of more than 640 digits is
  checked against the limit: with more digits than \<open>int_max_str_digits\<close>, when that is not
  0, the conversion raises \<^verbatim>\<open>ValueError\<close>. The sign is not a digit.
\<close>

definition parse_int :: "limits \<Rightarrow> pystr \<Rightarrow> py_error + int" where
  "parse_int lim s =
     (let ds = (case s of [] \<Rightarrow> [] | c # r \<Rightarrow> if c = ch CHR ''-'' then r else s)
      in if 640 < length ds \<and> 0 < int_max_str_digits lim \<and>
            int_max_str_digits lim < length ds
           then Inl ValueError
         else Inr (if ds = s then int (decimal ds) else - int (decimal ds)))"

text \<open>The text of a number, whether it is a float, and the input after it.\<close>

definition match_number :: "pystr \<Rightarrow> (bool \<times> pystr \<times> pystr) option" where
  "match_number s =
     (case match_integer s of
        None \<Rightarrow> None
      | Some (integer, s1) \<Rightarrow>
          (let (frac, s2) = match_frac s1; (exp, s3) = match_exp s2
           in Some (frac \<noteq> [] \<or> exp \<noteq> [], integer @ frac @ exp, s3)))"

definition startswith :: "pystr \<Rightarrow> pystr \<Rightarrow> bool" where
  "startswith s p \<longleftrightarrow> take (length p) s = p"

text \<open>
  \<^verbatim>\<open>raise_errmsg\<close> with \<open>k\<close> containers open: the \<^verbatim>\<open>JSONDecodeError\<close>, or the
  \<^verbatim>\<open>RecursionError\<close> of building it. \<^verbatim>\<open>_parse_constant\<close> calls \<^verbatim>\<open>parse_constant\<close>,
  which needs depth as well.
\<close>

definition raise_errmsg :: "limits \<Rightarrow> nat \<Rightarrow> py_error" where
  "raise_errmsg lim k =
     (if k + errmsg_frames lim \<le> recursion_limit lim then JSONDecodeError else RecursionError)"

definition parse_constant ::
    "limits \<Rightarrow> nat \<Rightarrow> pystr \<Rightarrow> pystr \<Rightarrow> py_error + (pyval \<times> pystr)" where
  "parse_constant lim k name rest =
     (if k + constant_frames lim \<le> recursion_limit lim then Inr (PFloat name, rest)
      else Inl RecursionError)"

text \<open>
  The branches of \<^verbatim>\<open>scan_once_unicode\<close> that do not recurse: the three literals, a
  number, and the constants \<^verbatim>\<open>NaN\<close>, \<^verbatim>\<open>Infinity\<close> and \<^verbatim>\<open>-Infinity\<close> that Python accepts.
  Where nothing matches the scanner raises \<^verbatim>\<open>StopIteration\<close>.
\<close>

definition scan_constant :: "limits \<Rightarrow> nat \<Rightarrow> pystr \<Rightarrow> py_error + (pyval \<times> pystr)" where
  "scan_constant lim k s =
     (if startswith s (lit ''null'') then Inr (PNone, drop 4 s)
      else if startswith s (lit ''true'') then Inr (PBool True, drop 4 s)
      else if startswith s (lit ''false'') then Inr (PBool False, drop 5 s)
      else case match_number s of
        Some (is_float, numstr, rest) \<Rightarrow>
          if is_float then Inr (PFloat numstr, rest)
          else (case parse_int lim numstr of
                  Inl e \<Rightarrow> Inl e
                | Inr i \<Rightarrow> Inr (PInt i, rest))
      | None \<Rightarrow>
          if startswith s (lit ''NaN'') then parse_constant lim k (lit ''NaN'') (drop 3 s)
          else if startswith s (lit ''Infinity'')
            then parse_constant lim k (lit ''Infinity'') (drop 8 s)
          else if startswith s (lit ''-Infinity'')
            then parse_constant lim k (lit ''-Infinity'') (drop 9 s)
          else Inl StopIteration)"

text \<open>
  \<^verbatim>\<open>dict(pairs)\<close>: a key that comes again keeps its place and takes the later value.
\<close>

fun dict_set :: "(pystr \<times> pyval) list \<Rightarrow> pystr \<Rightarrow> pyval \<Rightarrow> (pystr \<times> pyval) list" where
  "dict_set [] k v = [(k, v)]"
| "dict_set ((k', v') # d) k v =
     (if k' = k then (k', v) # d else (k', v') # dict_set d k v)"

definition dict :: "(pystr \<times> pyval) list \<Rightarrow> (pystr \<times> pyval) list" where
  "dict pairs = foldl (\<lambda>d (k, v). dict_set d k v) [] pairs"

text \<open>
  \<^verbatim>\<open>scan_once_unicode\<close>, \<^verbatim>\<open>_parse_object_unicode\<close> and \<^verbatim>\<open>_parse_array_unicode\<close>, under the
  names of their Python versions. \<open>JSONObject\<close> and \<open>JSONArray\<close> start after the opening
  bracket; \<open>JSONObject_pairs\<close> and \<open>JSONArray_values\<close> are their loops, the first from the
  character after the opening quote of a key, the second from the first character of a
  value. Opening a container inside \<open>k\<close> others needs \<open>k < recursion_limit\<close>. The
  \<^verbatim>\<open>StopIteration\<close> of a missing value passes through the containers unchanged.
\<close>

function scan_once :: "limits \<Rightarrow> nat \<Rightarrow> pystr \<Rightarrow> py_error + (pyval \<times> pystr)"
  and JSONObject :: "limits \<Rightarrow> nat \<Rightarrow> pystr \<Rightarrow> py_error + (pyval \<times> pystr)"
  and JSONObject_pairs ::
    "limits \<Rightarrow> nat \<Rightarrow> pystr \<Rightarrow> py_error + ((pystr \<times> pyval) list \<times> pystr)"
  and JSONArray :: "limits \<Rightarrow> nat \<Rightarrow> pystr \<Rightarrow> py_error + (pyval \<times> pystr)"
  and JSONArray_values :: "limits \<Rightarrow> nat \<Rightarrow> pystr \<Rightarrow> py_error + (pyval list \<times> pystr)"
where
  "scan_once lim k [] = Inl StopIteration"
| \<open>scan_once lim k (c # s) =
     (if c = ch CHR ''"'' then
        (case scanstring s of
           None \<Rightarrow> Inl (raise_errmsg lim k)
         | Some (str, rest) \<Rightarrow> Inr (PStr str, rest))
      else if c = ch CHR ''{'' then
        (if recursion_limit lim \<le> k then Inl RecursionError else JSONObject lim (Suc k) s)
      else if c = ch CHR ''['' then
        (if recursion_limit lim \<le> k then Inl RecursionError else JSONArray lim (Suc k) s)
      else scan_constant lim k (c # s))\<close>
| \<open>JSONObject lim k s =
     (case skip_ws s of
        [] \<Rightarrow> Inl (raise_errmsg lim k)
      | c # r \<Rightarrow>
          if c = ch CHR ''}'' then Inr (PDict [], r)
          else if c = ch CHR ''"'' then
            (case JSONObject_pairs lim k r of
               Inl e \<Rightarrow> Inl e
             | Inr (pairs, rest) \<Rightarrow> Inr (PDict (dict pairs), rest))
          else Inl (raise_errmsg lim k))\<close>
| \<open>JSONObject_pairs lim k s =
     (case scanstring s of
        None \<Rightarrow> Inl (raise_errmsg lim k)
      | Some (key, r1) \<Rightarrow>
          (case skip_ws r1 of
             [] \<Rightarrow> Inl (raise_errmsg lim k)
           | c # r2 \<Rightarrow>
               if c \<noteq> ch CHR '':'' then Inl (raise_errmsg lim k)
               else
                 (case scan_once lim k (skip_ws r2) of
                    Inl e \<Rightarrow> Inl e
                  | Inr (v, r3) \<Rightarrow>
                      (case skip_ws r3 of
                         [] \<Rightarrow> Inl (raise_errmsg lim k)
                       | nextchar # r4 \<Rightarrow>
                           if nextchar = ch CHR ''}'' then Inr ([(key, v)], r4)
                           else if nextchar \<noteq> ch CHR '','' then Inl (raise_errmsg lim k)
                           else
                             (case skip_ws r4 of
                                [] \<Rightarrow> Inl (raise_errmsg lim k)
                              | q # r5 \<Rightarrow>
                                  if q \<noteq> ch CHR ''"'' then Inl (raise_errmsg lim k)
                                  else
                                    (case JSONObject_pairs lim k r5 of
                                       Inl e \<Rightarrow> Inl e
                                     | Inr (pairs, rest) \<Rightarrow>
                                         Inr ((key, v) # pairs, rest)))))))\<close>
| \<open>JSONArray lim k s =
     (case skip_ws s of
        [] \<Rightarrow> Inl StopIteration
      | c # r \<Rightarrow>
          if c = ch CHR '']'' then Inr (PList [], r)
          else
            (case JSONArray_values lim k (c # r) of
               Inl e \<Rightarrow> Inl e
             | Inr (vs, rest) \<Rightarrow> Inr (PList vs, rest)))\<close>
| \<open>JSONArray_values lim k s =
     (case scan_once lim k s of
        Inl e \<Rightarrow> Inl e
      | Inr (v, r1) \<Rightarrow>
          (case skip_ws r1 of
             [] \<Rightarrow> Inl (raise_errmsg lim k)
           | nextchar # r2 \<Rightarrow>
               if nextchar = ch CHR '']'' then Inr ([v], r2)
               else if nextchar \<noteq> ch CHR '','' then Inl (raise_errmsg lim k)
               else
                 (case JSONArray_values lim k (skip_ws r2) of
                    Inl e \<Rightarrow> Inl e
                  | Inr (vs, rest) \<Rightarrow> Inr (v # vs, rest))))\<close>
  by pat_completeness auto

text \<open>
  Every call of the scanner continues on what an earlier call left, so termination
  needs that each of them consumes input. On the domain of the functions this follows
  from their partial rules.
\<close>

lemma skip_ws_le: "length (skip_ws s) \<le> length s"
  by (simp add: skip_ws_def length_dropWhile_le)

lemma skip_ws_Cons_less: "skip_ws s = c # r \<Longrightarrow> length r < length s"
  using skip_ws_le [of s] by simp

lemma scanstring_shorter: "scanstring s = Some (str, rest) \<Longrightarrow> length rest < length s"
  by (induction s arbitrary: str rest rule: scanstring.induct)
     (auto simp: chunk_def split: if_splits list.splits option.splits, force+)

lemma match_integer_shorter: "match_integer s = Some (i, r) \<Longrightarrow> length r < length s"
  by (auto simp: match_integer_def Let_def less_Suc_eq_le length_dropWhile_le
      intro: le_trans [OF length_dropWhile_le] split: list.splits if_splits)

lemma match_frac_le: "match_frac s = (f, r) \<Longrightarrow> length r \<le> length s"
  by (auto simp: match_frac_def split: list.splits if_splits
      intro: le_trans [OF length_dropWhile_le])

lemma match_exp_le: "match_exp s = (e, r) \<Longrightarrow> length r \<le> length s"
  by (auto simp: match_exp_def Let_def split: list.splits if_splits
      intro: le_trans [OF length_dropWhile_le])

lemma match_number_shorter:
  "match_number s = Some (f, n, r) \<Longrightarrow> length r < length s"
  by (auto simp: match_number_def Let_def split: option.splits prod.splits if_splits
      dest!: match_integer_shorter match_frac_le match_exp_le)

lemma startswith_drop_shorter:
  "startswith s p \<Longrightarrow> p \<noteq> [] \<Longrightarrow> 0 < n \<Longrightarrow> length (drop n s) < length s"
  by (cases s) (auto simp: startswith_def)

lemma scan_constant_shorter:
  "scan_constant lim k s = Inr (v, r) \<Longrightarrow> length r < length s"
  unfolding scan_constant_def parse_constant_def
  by (auto simp: lit_def split: if_splits option.splits sum.splits
      dest: match_number_shorter intro!: startswith_drop_shorter)

lemma scan_shorter_dom:
  "scan_once_JSONObject_JSONObject_pairs_JSONArray_JSONArray_values_dom
     (Inl (Inl (lim, k, a))) \<Longrightarrow>
     (\<forall>v r. scan_once lim k a = Inr (v, r) \<longrightarrow> length r < length a)"
  "scan_once_JSONObject_JSONObject_pairs_JSONArray_JSONArray_values_dom
     (Inl (Inr (lim, k, b))) \<Longrightarrow>
     (\<forall>v r. JSONObject lim k b = Inr (v, r) \<longrightarrow> length r < length b)"
  "scan_once_JSONObject_JSONObject_pairs_JSONArray_JSONArray_values_dom
     (Inr (Inl (lim, k, c))) \<Longrightarrow>
     (\<forall>v r. JSONObject_pairs lim k c = Inr (v, r) \<longrightarrow> length r < length c)"
  "scan_once_JSONObject_JSONObject_pairs_JSONArray_JSONArray_values_dom
     (Inr (Inr (Inl (lim, k, d)))) \<Longrightarrow>
     (\<forall>v r. JSONArray lim k d = Inr (v, r) \<longrightarrow> length r < length d)"
  "scan_once_JSONObject_JSONObject_pairs_JSONArray_JSONArray_values_dom
     (Inr (Inr (Inr (lim, k, e)))) \<Longrightarrow>
     (\<forall>v r. JSONArray_values lim k e = Inr (v, r) \<longrightarrow> length r < length e)"
proof (induct rule: scan_once_JSONObject_JSONObject_pairs_JSONArray_JSONArray_values.pinduct)
  case (1 lim k)
  then show ?case by (simp add: scan_once.psimps)
next
  case (2 lim k c s)
  then show ?case
    by (auto simp: scan_once.psimps split: if_splits option.splits
        dest: scanstring_shorter scan_constant_shorter)
next
  case (3 lim k s)
  show ?case
  proof (intro allI impI)
    fix v r
    assume eq: "JSONObject lim k s = Inr (v, r)"
    from eq 3(1) obtain c r0 where a: "skip_ws s = c # r0"
      by (auto simp: JSONObject.psimps split: list.splits)
    have l0: "length r0 < length s" using a by (rule skip_ws_Cons_less)
    show "length r < length s"
    proof (cases "c = ch CHR ''}''")
      case True
      with eq 3(1) a have "r = r0" by (simp add: JSONObject.psimps)
      with l0 show ?thesis by simp
    next
      case False
      with eq 3(1) a obtain pairs where
        b: \<open>c = ch CHR ''"''\<close> "JSONObject_pairs lim k r0 = Inr (pairs, r)"
        by (auto simp: JSONObject.psimps split: if_splits sum.splits)
      have "length r < length r0" using 3(2) a b False by auto
      with l0 show ?thesis by simp
    qed
  qed
next
  case (4 lim k s)
  show ?case
  proof (intro allI impI)
    fix ps r
    assume eq: "JSONObject_pairs lim k s = Inr (ps, r)"
    from eq 4(1) obtain key r1 c r2 v r3 nextchar r4 where
      a: "scanstring s = Some (key, r1)" "skip_ws r1 = c # r2" "c = ch CHR '':''"
         "scan_once lim k (skip_ws r2) = Inr (v, r3)" "skip_ws r3 = nextchar # r4"
      by (auto simp: JSONObject_pairs.psimps
          split: list.splits if_splits option.splits sum.splits)
    have l1: "length r1 < length s" using a(1) by (rule scanstring_shorter)
    have l2: "length r2 < length r1" using a(2) by (rule skip_ws_Cons_less)
    have l3: "length r3 < length (skip_ws r2)" using 4(2) a by auto
    have l3': "length r3 < length r2" using l3 skip_ws_le [of r2] by simp
    have l4: "length r4 < length r3" using a(5) by (rule skip_ws_Cons_less)
    show "length r < length s"
    proof (cases "nextchar = ch CHR ''}''")
      case True
      with eq 4(1) a have "r = r4" by (simp add: JSONObject_pairs.psimps)
      with l1 l2 l3' l4 show ?thesis by simp
    next
      case False
      with eq 4(1) a obtain q r5 pairs where
        b: "nextchar = ch CHR '',''" "skip_ws r4 = q # r5" \<open>q = ch CHR ''"''\<close>
           "JSONObject_pairs lim k r5 = Inr (pairs, r)"
        by (auto simp: JSONObject_pairs.psimps
            split: list.splits if_splits option.splits sum.splits)
      have l5: "length r5 < length r4" using b(2) by (rule skip_ws_Cons_less)
      have "length r < length r5" using 4(3) a b False by auto
      with l1 l2 l3' l4 l5 show ?thesis by simp
    qed
  qed
next
  case (5 lim k s)
  show ?case
  proof (intro allI impI)
    fix v r
    assume eq: "JSONArray lim k s = Inr (v, r)"
    from eq 5(1) obtain c r0 where a: "skip_ws s = c # r0"
      by (auto simp: JSONArray.psimps split: list.splits)
    have l0: "length r0 < length s" using a by (rule skip_ws_Cons_less)
    show "length r < length s"
    proof (cases "c = ch CHR '']''")
      case True
      with eq 5(1) a have "r = r0" by (simp add: JSONArray.psimps)
      with l0 show ?thesis by simp
    next
      case False
      with eq 5(1) a obtain vs where
        b: "JSONArray_values lim k (c # r0) = Inr (vs, r)"
        by (auto simp: JSONArray.psimps split: if_splits sum.splits)
      have "length r < length (c # r0)" using 5(2) a b False by blast
      with l0 show ?thesis by simp
    qed
  qed
next
  case (6 lim k s)
  show ?case
  proof (intro allI impI)
    fix vs r
    assume eq: "JSONArray_values lim k s = Inr (vs, r)"
    from eq 6(1) obtain v r1 nextchar r2 where
      a: "scan_once lim k s = Inr (v, r1)" "skip_ws r1 = nextchar # r2"
      by (auto simp: JSONArray_values.psimps split: list.splits if_splits sum.splits)
    have l1: "length r1 < length s" using 6(2) a by auto
    have l2: "length r2 < length r1" using a(2) by (rule skip_ws_Cons_less)
    show "length r < length s"
    proof (cases "nextchar = ch CHR '']''")
      case True
      with eq 6(1) a have "r = r2" by (simp add: JSONArray_values.psimps)
      with l1 l2 show ?thesis by simp
    next
      case False
      with eq 6(1) a obtain vs' where
        b: "nextchar = ch CHR '',''" "JSONArray_values lim k (skip_ws r2) = Inr (vs', r)"
        by (auto simp: JSONArray_values.psimps split: list.splits if_splits sum.splits)
      have "length r < length (skip_ws r2)" using 6(3) a b False by auto
      with l1 l2 skip_ws_le [of r2] show ?thesis by simp
    qed
  qed
qed

lemma scan_total:
  "All scan_once_JSONObject_JSONObject_pairs_JSONArray_JSONArray_values_dom"
proof (relation "measure (\<lambda>x. case x of
          Inl (Inl (lim, k, s)) \<Rightarrow> 3 * length s
        | Inl (Inr (lim, k, s)) \<Rightarrow> 3 * length s + 2
        | Inr (Inl (lim, k, s)) \<Rightarrow> 3 * length s + 2
        | Inr (Inr (Inl (lim, k, s))) \<Rightarrow> 3 * length s + 2
        | Inr (Inr (Inr (lim, k, s))) \<Rightarrow> 3 * length s + 1)", goal_cases)
  case 1
  show ?case by simp
next
  case (2 c lim k s)
  then show ?case by simp
next
  case (3 c lim k s)
  then show ?case by simp
next
  case (4 lim k s c r)
  then show ?case by (auto dest: skip_ws_Cons_less)
next
  case (5 lim k s x2 key r1 c r2)
  then show ?case
    using scanstring_shorter [of s key r1] skip_ws_Cons_less [of r1 c r2] skip_ws_le [of r2]
    by auto
next
  case (6 lim k s x2 key r1 c r2 x2a v r3 nextchar r4 q r5)
  then have "length r3 < length (skip_ws r2)"
    using scan_shorter_dom(1) by auto
  with 6 show ?case
    using scanstring_shorter [of s key r1] skip_ws_Cons_less [of r1 c r2] skip_ws_le [of r2]
      skip_ws_Cons_less [of r3 nextchar r4] skip_ws_Cons_less [of r4 q r5]
    by auto
next
  case (7 lim k s c r)
  then show ?case using skip_ws_le [of s] by auto
next
  case (8 lim k s)
  then show ?case by simp
next
  case (9 lim k s x2 v r1 nextchar r2)
  then have "length r1 < length s"
    using scan_shorter_dom(1) by auto
  with 9 show ?case
    using skip_ws_Cons_less [of r1 nextchar r2] skip_ws_le [of r2]
    by auto
qed

termination scan_once
  by (rule scan_total)

declare JSONObject.simps [simp del] JSONObject_pairs.simps [simp del]
  JSONArray.simps [simp del] JSONArray_values.simps [simp del]


lemma JSONObject_pairs_shorter:
  "JSONObject_pairs lim k s = Inr (ps, r) \<Longrightarrow> length r < length s"
  using scan_shorter_dom(3) scan_total by blast

lemma JSONArray_values_shorter:
  "JSONArray_values lim k s = Inr (vs, r) \<Longrightarrow> length r < length s"
  using scan_shorter_dom(5) scan_total by blast

text \<open>
  \<^verbatim>\<open>json.loads(s)\<close> for a \<^verbatim>\<open>str\<close>: a leading byte order mark is refused, then
  \<^verbatim>\<open>JSONDecoder.decode\<close> skips white space, calls \<^verbatim>\<open>raw_decode\<close>, which turns the
  \<^verbatim>\<open>StopIteration\<close> of the scanner into \<^verbatim>\<open>JSONDecodeError\<close>, skips white space and
  refuses what is left (``Extra data''). These errors are raised by Python code a few
  frames below \<open>main\<close>, where the depth is there.
\<close>

definition json_loads :: "limits \<Rightarrow> pystr \<Rightarrow> py_error + pyval" where
  "json_loads lim s =
     (if startswith s [0xfeff] then Inl JSONDecodeError
      else case scan_once lim 0 (skip_ws s) of
        Inl e \<Rightarrow> Inl (if e = StopIteration then JSONDecodeError else e)
      | Inr (obj, rest) \<Rightarrow>
          if skip_ws rest \<noteq> [] then Inl JSONDecodeError else Inr obj)"

subsection \<open>Formatting a value\<close>

text \<open>
  The f-string field \<^verbatim>\<open>{text}\<close> is \<^verbatim>\<open>format(text, "")\<close>, which is \<^verbatim>\<open>str(text)\<close> for
  every value \<^verbatim>\<open>json.loads\<close> returns: the string itself for a \<^verbatim>\<open>str\<close>, and the
  \<^verbatim>\<open>repr\<close> for the rest. Two of the conversions are not modelled and are parameters
  of the program's model: the \<^verbatim>\<open>repr\<close> of the \<^verbatim>\<open>float\<close> read from a JSON number
  (IEEE arithmetic), and the \<^verbatim>\<open>repr\<close> of a \<^verbatim>\<open>str\<close> inside a list or a dict (it
  depends on the Unicode character database). Every theorem below holds for all of
  their values.
\<close>

record runtime =
  float_repr :: "pystr \<Rightarrow> pystr"
  str_repr :: "pystr \<Rightarrow> pystr"

fun digits :: "nat \<Rightarrow> pystr" where
  "digits n =
     (if n < 10 then [ch CHR ''0'' + n] else digits (n div 10) @ [ch CHR ''0'' + n mod 10])"

declare digits.simps [simp del]

definition str_int :: "int \<Rightarrow> pystr" where
  "str_int i = (if i < 0 then ch CHR ''-'' # digits (nat (- i)) else digits (nat i))"

fun join :: "pystr \<Rightarrow> pystr list \<Rightarrow> pystr" where
  "join sep [] = []"
| "join sep [x] = x"
| "join sep (x # y # ys) = x @ sep @ join sep (y # ys)"

fun py_repr :: "runtime \<Rightarrow> pyval \<Rightarrow> pystr" where
  "py_repr rt PNone = lit ''None''"
| "py_repr rt (PBool b) = (if b then lit ''True'' else lit ''False'')"
| "py_repr rt (PInt i) = str_int i"
| "py_repr rt (PFloat x) = float_repr rt x"
| "py_repr rt (PStr s) = str_repr rt s"
| "py_repr rt (PList xs) = lit ''['' @ join (lit '', '') (map (py_repr rt) xs) @ lit '']''"
| "py_repr rt (PDict d) =
     lit ''{'' @
     join (lit '', '') (map (\<lambda>(k, v). str_repr rt k @ lit '': '' @ py_repr rt v) d) @
     lit ''}''"

definition py_str :: "runtime \<Rightarrow> pyval \<Rightarrow> pystr" where
  "py_str rt v = (case v of PStr s \<Rightarrow> s | _ \<Rightarrow> py_repr rt v)"

subsection \<open>\<^verbatim>\<open>json.dumps\<close>\<close>

text \<open>
  \<^verbatim>\<open>json.dumps\<close> with its defaults (\<^verbatim>\<open>ensure_ascii=True\<close>, the separators \<^verbatim>\<open>", "\<close> and
  \<^verbatim>\<open>": "\<close>) on a dict whose keys and values are strings, the only kind the program
  passes. \<open>hex4\<close> is \<^verbatim>\<open>'{0:04x}'.format(n)\<close>, which the encoder calls with
  \<^verbatim>\<open>n < 0x10000\<close> only. In \<open>escape\<close>, \<^verbatim>\<open>0xd800 | ((n >> 10) & 0x3ff)\<close> and
  \<^verbatim>\<open>0xdc00 | (n & 0x3ff)\<close> are written with \<open>div\<close>, \<open>mod\<close> and \<open>+\<close>.
\<close>

definition hex_digit :: "nat \<Rightarrow> nat" where
  "hex_digit d = (if d < 10 then ch CHR ''0'' + d else ch CHR ''a'' + (d - 10))"

definition hex4 :: "nat \<Rightarrow> pystr" where
  "hex4 n =
     [hex_digit (n div 4096 mod 16), hex_digit (n div 256 mod 16),
      hex_digit (n div 16 mod 16), hex_digit (n mod 16)]"

definition ESCAPE_DCT :: "nat \<rightharpoonup> pystr" where
  "ESCAPE_DCT c =
     (case map_of
        [(92, [92, 92]), (34, [92, 34]), (8, 92 # lit ''b''), (12, 92 # lit ''f''),
         (10, 92 # lit ''n''), (13, 92 # lit ''r''), (9, 92 # lit ''t'')] c of
        Some e \<Rightarrow> Some e
      | None \<Rightarrow> if c < 0x20 then Some (92 # lit ''u'' @ hex4 c) else None)"

text \<open>The function \<^verbatim>\<open>replace\<close> of \<^verbatim>\<open>py_encode_basestring_ascii\<close>.\<close>

definition escape :: "nat \<Rightarrow> pystr" where
  "escape c =
     (case ESCAPE_DCT c of
        Some e \<Rightarrow> e
      | None \<Rightarrow>
          if c < 0x10000 then 92 # lit ''u'' @ hex4 c
          else
            (let n = c - 0x10000;
                 s1 = 0xd800 + n div 1024 mod 1024;
                 s2 = 0xdc00 + n mod 1024
             in 92 # lit ''u'' @ hex4 s1 @ 92 # lit ''u'' @ hex4 s2))"

text \<open>The characters the pattern \<^verbatim>\<open>ESCAPE_ASCII\<close>, \<^verbatim>\<open>([\\"]|[^\ -~])\<close>, matches.\<close>

definition ESCAPE_ASCII :: "nat \<Rightarrow> bool" where
  "ESCAPE_ASCII c \<longleftrightarrow> c = 92 \<or> c = 34 \<or> c < 32 \<or> 126 < c"

definition escape_ascii :: "pystr \<Rightarrow> pystr" where
  "escape_ascii s = concat (map (\<lambda>c. if ESCAPE_ASCII c then escape c else [c]) s)"

definition encode_basestring_ascii :: "pystr \<Rightarrow> pystr" where
  "encode_basestring_ascii s = 34 # escape_ascii s @ [34]"

definition json_dumps :: "(pystr \<times> pystr) list \<Rightarrow> pystr" where
  "json_dumps d =
     lit ''{'' @
     join (lit '', '')
       (map (\<lambda>(k, v). encode_basestring_ascii k @ lit '': '' @ encode_basestring_ascii v) d) @
     lit ''}''"

subsection \<open>The program\<close>

text \<open>
  \<^verbatim>\<open>args.get("text", "")\<close>: only a dict has the method \<^verbatim>\<open>get\<close>; on every other value
  \<^verbatim>\<open>json.loads\<close> returns, the attribute lookup raises \<^verbatim>\<open>AttributeError\<close>.
\<close>

definition dict_get :: "pyval \<Rightarrow> pystr \<Rightarrow> pyval \<Rightarrow> py_error + pyval" where
  "dict_get args k dflt =
     (case args of
        PDict d \<Rightarrow> Inr (case map_of d k of None \<Rightarrow> dflt | Some v \<Rightarrow> v)
      | _ \<Rightarrow> Inl AttributeError)"

text \<open>\<^verbatim>\<open>print\<close> writes its argument and a newline to standard output.\<close>

definition print :: "pystr \<Rightarrow> pystr" where
  "print s = s @ [10]"

text \<open>
  \<open>main\<close> returns the text it wrote to standard output, or the exception that left
  it. The \<^verbatim>\<open>except\<close> clause catches \<^verbatim>\<open>JSONDecodeError\<close> and nothing else: a
  \<^verbatim>\<open>ValueError\<close> or a \<^verbatim>\<open>RecursionError\<close> of \<^verbatim>\<open>json.loads\<close> leaves \<open>main\<close>. Nothing is
  written before \<^verbatim>\<open>print\<close>, the last statement, so an exception means that standard
  output is empty. The values that reach the f-string were decoded under the limits, and
  their conversion needs no more than decoding them did: \<^verbatim>\<open>repr\<close> takes one level of
  recursion for each level of nesting, as the scanner does, and starts from fewer frames;
  an \<^verbatim>\<open>int\<close> has no more digits than its text.
\<close>

definition main :: "runtime \<Rightarrow> limits \<Rightarrow> pystr list \<Rightarrow> py_error + pystr" where
  "main rt lim argv =
     (case (case (if 1 < length argv then json_loads lim (argv ! 1) else Inr (PDict [])) of
              Inl e \<Rightarrow> if e = JSONDecodeError then Inr (PDict []) else Inl e
            | Inr args \<Rightarrow> Inr args) of
        Inl e \<Rightarrow> Inl e
      | Inr args \<Rightarrow>
          (case dict_get args (lit ''text'') (PStr []) of
             Inl e \<Rightarrow> Inl e
           | Inr text \<Rightarrow>
               Inr (print (json_dumps [(lit ''content'', lit ''echo: '' @ py_str rt text)]))))"

text \<open>
  The process: \<^verbatim>\<open>if __name__ == "__main__": main()\<close>. When \<open>main\<close> returns the
  interpreter exits with status 0; an exception that leaves \<open>main\<close> is reported on
  standard error and the exit status is 1.
\<close>

record process_result =
  stdout :: pystr
  uncaught :: "py_error option"
  exit_status :: nat

definition run :: "runtime \<Rightarrow> limits \<Rightarrow> pystr list \<Rightarrow> process_result" where
  "run rt lim argv =
     (case main rt lim argv of
        Inr out \<Rightarrow> \<lparr>stdout = out, uncaught = None, exit_status = 0\<rparr>
      | Inl e \<Rightarrow> \<lparr>stdout = [], uncaught = Some e, exit_status = 1\<rparr>)"

subsection \<open>Notions used in the statements\<close>

text \<open>
  \<open>is_dict\<close> is \<^verbatim>\<open>isinstance(v, dict)\<close>. \<open>surfaced_error\<close> is the exception that the
  argument list leads to, read off the result of \<^verbatim>\<open>json.loads\<close>: what \<^verbatim>\<open>json.loads\<close>
  raises other than \<^verbatim>\<open>JSONDecodeError\<close>, or the \<^verbatim>\<open>AttributeError\<close> of a value that is not
  a dict. \<open>within_limits\<close> says that an argument is too short to reach a limit of the
  interpreter: each container, and each digit, takes a character. \<open>room\<close> says the same
  of a number of characters. \<open>long_int\<close> is the text of an integer that passes the
  default limit on the digits. \<open>limits_3_11\<close> are the limits of CPython 3.11 with its
  defaults where \<open>main\<close> is called from the module; the theorems do not depend on them,
  the examples use them. A Unicode scalar value is a code point that is not a surrogate; a string of
  scalar values is what a command line holds when it is well-formed text.
\<close>

fun is_dict :: "pyval \<Rightarrow> bool" where
  "is_dict (PDict d) = True"
| "is_dict _ = False"

definition surfaced_error :: "limits \<Rightarrow> pystr list \<Rightarrow> py_error option" where
  "surfaced_error lim argv =
     (if 1 < length argv then
        (case json_loads lim (argv ! 1) of
           Inl e \<Rightarrow> if e = JSONDecodeError then None else Some e
         | Inr v \<Rightarrow> if is_dict v then None else Some AttributeError)
      else None)"



definition limits_3_11 :: limits where
  "limits_3_11 =
     \<lparr>int_max_str_digits = 4300, recursion_limit = 994, errmsg_frames = 3,
      constant_frames = 1\<rparr>"



section \<open>Properties of the encoder and the decoder\<close>

subsection \<open>Hexadecimal digits\<close>

text \<open>Four digits written by \<open>hex4\<close> are read back by \<open>decode_uXXXX\<close>.\<close>

lemma hexval_hex_digit: "d < 16 \<Longrightarrow> hexval (hex_digit d) = Some d"
  by (auto simp: hexval_def hex_digit_def)

lemma hex4_value:
  assumes "n < 65536"
  shows "((n div 4096 mod 16 * 16 + n div 256 mod 16) * 16 + n div 16 mod 16) * 16 + n mod 16 = (n::nat)"
proof -
  have a: "n div 256 = n div 16 div 16" and b: "n div 4096 = n div 16 div 16 div 16"
    by (simp_all add: div_mult2_eq)
  have c: "n div 4096 < 16" using assms by simp
  show ?thesis
    using c div_mult_mod_eq [of n 16] div_mult_mod_eq [of "n div 16" 16]
      div_mult_mod_eq [of "n div 16 div 16" 16]
    unfolding a b by simp
qed

lemma decode_hex4: "n < 65536 \<Longrightarrow> decode_uXXXX (hex4 n @ t) = Some n"
  using hex4_value [of n] by (simp add: decode_uXXXX_def hex4_def hexval_hex_digit)

lemma length_hex4 [simp]: "length (hex4 n) = 4"
  by (simp add: hex4_def)

subsection \<open>Scanning what the encoder wrote\<close>

text \<open>
  One step of \<open>scanstring\<close> on a \<^verbatim>\<open>\u\<close> escape the encoder wrote: the look-ahead for the
  second half of a surrogate pair is the only place where the decoder reads beyond the
  escape of one character.
\<close>

lemma scanstring_u:
  "n < 65536 \<Longrightarrow> scanstring (92 # 117 # hex4 n @ t) =
     (if 0xd800 \<le> n \<and> n \<le> 0xdbff \<and> take 2 t = [92, 117] then
        (case decode_uXXXX (drop 2 t) of
           None \<Rightarrow> None
         | Some uni2 \<Rightarrow>
             if 0xdc00 \<le> uni2 \<and> uni2 \<le> 0xdfff
               then chunk (0x10000 + ((n - 0xd800) * 1024 + (uni2 - 0xdc00))) (scanstring (drop 6 t))
               else chunk n (scanstring t))
      else chunk n (scanstring t))"
  by (simp add: decode_hex4 cong: if_cong option.case_cong)

text \<open>
  The four ways the encoder writes a character: as it is, as a one-letter escape, as one
  \<^verbatim>\<open>\u\<close> escape, or as the two escapes of a surrogate pair.
\<close>

lemma escape_cases:
  obtains (plain) "\<not> ESCAPE_ASCII c" "c \<noteq> 92" "c \<noteq> 34" "32 \<le> c"
  | (simple) e where "ESCAPE_ASCII c" "escape c = [92, e]" "e \<noteq> 117" "BACKSLASH e = Some c"
  | (single) "ESCAPE_ASCII c" "escape c = 92 # 117 # hex4 c" "c < 65536"
  | (pair) "ESCAPE_ASCII c" "65536 \<le> c"
      "escape c = 92 # 117 # hex4 (0xd800 + (c - 65536) div 1024 mod 1024) @
                  92 # 117 # hex4 (0xdc00 + (c - 65536) mod 1024)"
proof (cases "ESCAPE_ASCII c")
  case False
  then show ?thesis using plain by (auto simp: ESCAPE_ASCII_def)
next
  case esc: True
  consider "c = 92" | "c = 34" | "c = 8" | "c = 12" | "c = 10" | "c = 13" | "c = 9"
    | "c \<notin> {92, 34, 8, 12, 10, 13, 9}" "c < 65536" | "65536 \<le> c"
    by fastforce
  then show ?thesis
  proof cases
    case 8
    then have "escape c = 92 # 117 # hex4 c"
      by (auto simp: escape_def ESCAPE_DCT_def lit_def)
    with esc 8 show ?thesis using single by blast
  next
    case 9
    then have "escape c = 92 # 117 # hex4 (0xd800 + (c - 65536) div 1024 mod 1024) @
                  92 # 117 # hex4 (0xdc00 + (c - 65536) mod 1024)"
      by (auto simp: escape_def ESCAPE_DCT_def lit_def Let_def)
    with esc 9 show ?thesis using pair by blast
  qed (use esc in \<open>(rule simple, simp, simp add: escape_def ESCAPE_DCT_def lit_def, simp, simp add: BACKSLASH_def)+\<close>)
qed

lemma escape_ascii_Cons:
  "escape_ascii (c # s) = (if ESCAPE_ASCII c then escape c else [c]) @ escape_ascii s"
  by (simp add: escape_ascii_def)

lemma escape_ascii_Nil [simp]: "escape_ascii [] = []"
  by (simp add: escape_ascii_def)

lemma escape_pair_units:
  fixes c :: nat
  defines "s1 \<equiv> 55296 + (c - 65536) div 1024 mod 1024"
    and "s2 \<equiv> 56320 + (c - 65536) mod 1024"
  shows "55296 \<le> s1" "s1 \<le> 56319" "56320 \<le> s2" "s2 \<le> 57343"
proof -
  have "(c - 65536) div 1024 mod 1024 < 1024" "(c - 65536) mod 1024 < 1024" by simp_all
  then show "55296 \<le> s1" "s1 \<le> 56319" "56320 \<le> s2" "s2 \<le> 57343"
    unfolding s1_def s2_def by linarith+
qed

text \<open>
  When what follows starts with \<^verbatim>\<open>\u\<close>, it is the escape of the next character; and that
  escape holds a low surrogate only if it is the whole escape of that character.
\<close>

lemma lookahead:
  assumes "take 2 (escape_ascii xs @ 34 # rest) = [92, 117]"
  obtains y ys m R where "xs = y # ys" "m < 65536"
    "escape_ascii xs = 92 # 117 # hex4 m @ R"
    "56320 \<le> m \<and> m \<le> 57343 \<longrightarrow> R = escape_ascii ys"
proof (cases xs)
  case Nil
  with assms show ?thesis by simp
next
  case (Cons y ys)
  show ?thesis
  proof (cases y rule: escape_cases)
    case plain
    with assms Cons show ?thesis by (simp add: escape_ascii_Cons)
  next
    case (simple e)
    with assms Cons show ?thesis by (simp add: escape_ascii_Cons)
  next
    case single
    with Cons show ?thesis
      by (intro that [of y ys y "escape_ascii ys"]) (simp_all add: escape_ascii_Cons)
  next
    case pair
    define s1 where "s1 = 55296 + (y - 65536) div 1024 mod 1024"
    define s2 where "s2 = 56320 + (y - 65536) mod 1024"
    have r: "s1 \<le> 56319" unfolding s1_def by (rule escape_pair_units)
    have e: "escape y = 92 # 117 # hex4 s1 @ 92 # 117 # hex4 s2"
      using pair(3) unfolding s1_def s2_def by simp
    show ?thesis
    proof (rule that [of y ys s1 "92 # 117 # hex4 s2 @ escape_ascii ys"])
      show "xs = y # ys" by (rule Cons)
      show "s1 < 65536" using r by simp
      show "escape_ascii xs = 92 # 117 # hex4 s1 @ 92 # 117 # hex4 s2 @ escape_ascii ys"
        using Cons pair(1) e by (simp add: escape_ascii_Cons)
      show "56320 \<le> s1 \<and> s1 \<le> 57343 \<longrightarrow>
          92 # 117 # hex4 s2 @ escape_ascii ys = escape_ascii ys"
        using r by simp
    qed
  qed
qed

text \<open>
  \<open>scanstring\<close> accepts everything the encoder writes and stops after the closing quote.
  A high surrogate followed by a low one, two characters of the string, is read back as
  one, so the induction is over the length of the string.
\<close>

lemma scanstring_escape_ascii:
  "\<exists>str. scanstring (escape_ascii s @ 34 # rest) = Some (str, rest)"
proof (induction s rule: length_induct)
  case (1 s)
  show ?case
  proof (cases s)
    case Nil
    then show ?thesis by simp
  next
    case (Cons x xs)
    define T where "T = escape_ascii xs @ 34 # rest"
    have "length xs < length s" using Cons by simp
    with 1 obtain str where tail: "scanstring T = Some (str, rest)"
      unfolding T_def by blast
    have enc: "escape_ascii s @ 34 # rest = (if ESCAPE_ASCII x then escape x else [x]) @ T"
      unfolding T_def Cons by (simp add: escape_ascii_Cons)
    show ?thesis
    proof (cases x rule: escape_cases)
      case plain
      with tail show ?thesis unfolding enc
        by (simp add: chunk_def)
    next
      case (simple e)
      with tail show ?thesis unfolding enc
        by (simp add: chunk_def)
    next
      case single
      note u = scanstring_u [OF single(3), of T]
      show ?thesis
      proof (cases "55296 \<le> x \<and> x \<le> 56319 \<and> take 2 T = [92, 117]")
        case False
        then have "scanstring (92 # 117 # hex4 x @ T) = chunk x (scanstring T)"
          by (simp only: u if_False)
        with single tail show ?thesis unfolding enc
          by (simp add: chunk_def del: scanstring.simps)
      next
        case True
        then have "take 2 (escape_ascii xs @ 34 # rest) = [92, 117]" by (simp add: T_def)
        then obtain y ys m R where l: "xs = y # ys" "m < 65536"
          "escape_ascii xs = 92 # 117 # hex4 m @ R"
          "56320 \<le> m \<and> m \<le> 57343 \<longrightarrow> R = escape_ascii ys"
          by (rule lookahead) blast
        have T: "T = 92 # 117 # hex4 m @ R @ 34 # rest"
          unfolding T_def l(3) by simp
        have d2: "drop 2 T = hex4 m @ R @ 34 # rest" and d6: "drop 6 T = R @ 34 # rest"
          unfolding T by simp_all
        have dec: "decode_uXXXX (drop 2 T) = Some m"
          unfolding d2 using l(2) by (rule decode_hex4)
        show ?thesis
        proof (cases "56320 \<le> m \<and> m \<le> 57343")
          case lo: True
          have "length ys < length s" using Cons l(1) by simp
          with 1 obtain str' where
            "scanstring (escape_ascii ys @ 34 # rest) = Some (str', rest)"
            by blast
          with lo l(4) have "scanstring (drop 6 T) = Some (str', rest)"
            unfolding d6 by simp
          moreover have "scanstring (92 # 117 # hex4 x @ T) =
              chunk (0x10000 + ((x - 0xd800) * 1024 + (m - 0xdc00))) (scanstring (drop 6 T))"
            unfolding u using True dec lo by simp
          ultimately show ?thesis using single unfolding enc
            by (simp add: chunk_def del: scanstring.simps)
        next
          case False
          then have "scanstring (92 # 117 # hex4 x @ T) = chunk x (scanstring T)"
            unfolding u using True dec by auto
          with single tail show ?thesis unfolding enc
            by (simp add: chunk_def del: scanstring.simps)
        qed
      qed
    next
      case pair
      define s1 where "s1 = 55296 + (x - 65536) div 1024 mod 1024"
      define s2 where "s2 = 56320 + (x - 65536) mod 1024"
      have r: "55296 \<le> s1" "s1 \<le> 56319" "56320 \<le> s2" "s2 \<le> 57343"
        unfolding s1_def s2_def by (rule escape_pair_units)+
      have e: "escape x = 92 # 117 # hex4 s1 @ 92 # 117 # hex4 s2"
        using pair(3) unfolding s1_def s2_def by simp
      have s1: "s1 < 65536" and s2: "s2 < 65536" using r by simp_all
      have "scanstring (92 # 117 # hex4 s1 @ (92 # 117 # hex4 s2 @ T)) =
            chunk (0x10000 + ((s1 - 0xd800) * 1024 + (s2 - 0xdc00))) (scanstring T)"
        unfolding scanstring_u [OF s1] using r decode_hex4 [OF s2, of T] by simp
      with pair(1) tail show ?thesis unfolding enc e
        by (simp add: chunk_def del: scanstring.simps)
    qed
  qed
qed




subsection \<open>The encoder writes printable ASCII only\<close>

lemma hex_digit_printable: "d < 16 \<Longrightarrow> 32 \<le> hex_digit d \<and> hex_digit d \<le> 126"
  by (simp add: hex_digit_def)

lemma hex4_printable: "c \<in> set (hex4 n) \<Longrightarrow> 32 \<le> c \<and> c \<le> 126"
proof -
  assume "c \<in> set (hex4 n)"
  then consider "c = hex_digit (n div 4096 mod 16)" | "c = hex_digit (n div 256 mod 16)"
    | "c = hex_digit (n div 16 mod 16)" | "c = hex_digit (n mod 16)"
    unfolding hex4_def by auto
  then show ?thesis
    by cases (simp_all add: hex_digit_printable)
qed

lemma BACKSLASH_printable: "BACKSLASH e = Some c \<Longrightarrow> 32 \<le> e \<and> e \<le> 126"
  unfolding BACKSLASH_def by (simp split: if_splits)

lemma escape_printable: "c \<in> set (escape x) \<Longrightarrow> 32 \<le> c \<and> c \<le> 126"
proof (cases x rule: escape_cases)
  case plain
  assume c: "c \<in> set (escape x)"
  have "x < 65536" using plain by (simp add: ESCAPE_ASCII_def)
  moreover have "ESCAPE_DCT x = None" using plain by (simp add: ESCAPE_DCT_def ESCAPE_ASCII_def)
  ultimately have "escape x = 92 # 117 # hex4 x" by (simp add: escape_def lit_def)
  with c show ?thesis using hex4_printable [of c x] by auto
next
  case (simple e)
  assume "c \<in> set (escape x)"
  with simple BACKSLASH_printable [of e x] show ?thesis by auto
next
  case single
  assume "c \<in> set (escape x)"
  with single show ?thesis using hex4_printable [of c x] by auto
next
  case pair
  assume "c \<in> set (escape x)"
  with pair(3) show ?thesis
    using hex4_printable [of c "55296 + (x - 65536) div 1024 mod 1024"]
      hex4_printable [of c "56320 + (x - 65536) mod 1024"]
    by auto
qed

lemma escape_ascii_printable: "c \<in> set (escape_ascii s) \<Longrightarrow> 32 \<le> c \<and> c \<le> 126"
proof (induction s)
  case Nil
  then show ?case by simp
next
  case (Cons x xs)
  then consider "c \<in> set (if ESCAPE_ASCII x then escape x else [x])" | "c \<in> set (escape_ascii xs)"
    unfolding escape_ascii_Cons by auto
  then show ?case
  proof cases
    case 1
    then show ?thesis
      using escape_printable [of c x] by (cases "ESCAPE_ASCII x") (auto simp: ESCAPE_ASCII_def)
  next
    case 2
    then show ?thesis by (rule Cons.IH)
  qed
qed

subsection \<open>The line the program prints\<close>

lemma json_dumps_content:
  \<open>json_dumps [(lit ''content'', v)] = lit ''{"content": "'' @ escape_ascii v @ lit ''"}''\<close>
  by (simp add: json_dumps_def encode_basestring_ascii_def lit_def escape_ascii_Cons ESCAPE_ASCII_def)

lemma json_loads_content:
  assumes "scanstring (escape_ascii v @ 34 # lit ''}'') = Some (str, lit ''}'')"
    and "0 < recursion_limit lim"
  shows "json_loads lim (json_dumps [(lit ''content'', v)]) =
    Inr (PDict [(lit ''content'', PStr str)])"
  using assms unfolding json_dumps_content
  by (simp add: json_loads_def lit_def startswith_def skip_ws_def is_ws_def
      chunk_def dict_def JSONObject.simps JSONObject_pairs.simps)

lemma json_dumps_printable:
  "c \<in> set (json_dumps [(lit ''content'', v)]) \<Longrightarrow> 32 \<le> c \<and> c \<le> 126"
proof -
  assume "c \<in> set (json_dumps [(lit ''content'', v)])"
  then consider \<open>c \<in> set (lit ''{"content": "'')\<close> | "c \<in> set (escape_ascii v)"
    | \<open>c \<in> set (lit ''"}'')\<close>
    unfolding json_dumps_content by auto
  then show ?thesis
  proof cases
    case 2
    then show ?thesis by (rule escape_ascii_printable)
  qed (auto simp: lit_def)
qed

subsection \<open>Arguments that stay within the limits\<close>












subsection \<open>The exceptions of \<^verbatim>\<open>json.loads\<close>\<close>









subsection \<open>An \<^verbatim>\<open>int\<close> of 4301 digits\<close>












subsection \<open>Arrays nested beyond the recursion limit\<close>





section \<open>Properties of the program\<close>

subsection \<open>Evaluation and the paths through \<open>main\<close>\<close>

lemmas loads_eval = json_loads_def skip_ws_def is_ws_def scan_constant_def startswith_def
  match_number_def match_integer_def match_frac_def match_exp_def is_digit_def parse_int_def
  decimal_def dict_def chunk_def decode_uXXXX_def hexval_def BACKSLASH_def Let_def
  raise_errmsg_def parse_constant_def JSONObject.simps JSONObject_pairs.simps
  JSONArray.simps JSONArray_values.simps



lemma main_no_argument:
  "length argv \<le> 1 \<Longrightarrow>
     main rt lim argv = Inr (print (json_dumps [(lit ''content'', lit ''echo: '')]))"
  by (simp add: main_def dict_get_def py_str_def)

lemma main_decode_error:
  "1 < length argv \<Longrightarrow> json_loads lim (argv ! 1) = Inl JSONDecodeError \<Longrightarrow>
     main rt lim argv = Inr (print (json_dumps [(lit ''content'', lit ''echo: '')]))"
  by (simp add: main_def dict_get_def py_str_def)

lemma main_other_error:
  "1 < length argv \<Longrightarrow> json_loads lim (argv ! 1) = Inl e \<Longrightarrow> e \<noteq> JSONDecodeError \<Longrightarrow>
     main rt lim argv = Inl e"
  by (simp add: main_def)

lemma main_object:
  "1 < length argv \<Longrightarrow> json_loads lim (argv ! 1) = Inr (PDict d) \<Longrightarrow>
     main rt lim argv =
       Inr (print (json_dumps [(lit ''content'', lit ''echo: '' @
         py_str rt (case map_of d (lit ''text'') of None \<Rightarrow> PStr [] | Some v \<Rightarrow> v))]))"
  by (simp add: main_def dict_get_def)

lemma main_non_object:
  "1 < length argv \<Longrightarrow> json_loads lim (argv ! 1) = Inr v \<Longrightarrow> \<not> is_dict v \<Longrightarrow>
     main rt lim argv = Inl AttributeError"
  by (cases v) (simp_all add: main_def dict_get_def)

text \<open>
  The two ways \<open>main\<close> ends: with the exception that \<open>surfaced_error\<close> reads off the
  argument, or with one printed line.
\<close>

lemma main_shape:
  "(\<exists>e. surfaced_error lim argv = Some e \<and> main rt lim argv = Inl e) \<or>
   (surfaced_error lim argv = None \<and>
    (\<exists>v. main rt lim argv = Inr (print (json_dumps [(lit ''content'', lit ''echo: '' @ v)]))))"
proof (cases "1 < length argv")
  case False
  then have "main rt lim argv = Inr (print (json_dumps [(lit ''content'', lit ''echo: '' @ [])]))"
    using main_no_argument [of argv rt lim] by simp
  moreover have "surfaced_error lim argv = None"
    using False by (simp add: surfaced_error_def)
  ultimately show ?thesis by blast
next
  case True
  show ?thesis
  proof (cases "json_loads lim (argv ! 1)")
    case (Inl e)
    show ?thesis
    proof (cases "e = JSONDecodeError")
      case decode: True
      with True Inl
      have "main rt lim argv = Inr (print (json_dumps [(lit ''content'', lit ''echo: '' @ [])]))"
        using main_decode_error [of argv lim rt] by simp
      moreover have "surfaced_error lim argv = None"
        using True Inl decode by (simp add: surfaced_error_def)
      ultimately show ?thesis by blast
    next
      case other: False
      with True Inl have "main rt lim argv = Inl e"
        by (simp add: main_other_error)
      moreover have "surfaced_error lim argv = Some e"
        using True Inl other by (simp add: surfaced_error_def)
      ultimately show ?thesis by blast
    qed
  next
    case (Inr v)
    show ?thesis
    proof (cases "is_dict v")
      case False
      with True Inr show ?thesis
        using main_non_object [of argv lim v rt] by (simp add: surfaced_error_def)
    next
      case dict: True
      then obtain d where "v = PDict d" by (cases v) simp_all
      with True Inr have "\<exists>w. main rt lim argv =
          Inr (print (json_dumps [(lit ''content'', lit ''echo: '' @ w)]))"
        using main_object [of argv lim d rt] by blast
      moreover have "surfaced_error lim argv = None"
        using True Inr dict by (simp add: surfaced_error_def)
      ultimately show ?thesis by blast
    qed
  qed
qed


lemma run_raised:
  "main rt lim argv = Inl e \<Longrightarrow>
     run rt lim argv = \<lparr>stdout = [], uncaught = Some e, exit_status = 1\<rparr>"
  by (simp add: run_def)





text \<open>
  The printed line is one line, and it is JSON for an object with the one key: every
  interpreter that has room to open one container decodes it so.
\<close>

lemma printed_line:
  "10 \<notin> set (json_dumps [(lit ''content'', v)]) \<and>
   (\<exists>str. \<forall>lim. 0 < recursion_limit lim \<longrightarrow>
      json_loads lim (json_dumps [(lit ''content'', v)]) =
        Inr (PDict [(lit ''content'', PStr str)]))"
proof
  show "10 \<notin> set (json_dumps [(lit ''content'', v)])"
    using json_dumps_printable [of 10 v] by auto
  obtain str where "scanstring (escape_ascii v @ 34 # lit ''}'') = Some (str, lit ''}'')"
    using scanstring_escape_ascii [of v "lit ''}''"] by blast
  then show "\<exists>str. \<forall>lim. 0 < recursion_limit lim \<longrightarrow>
      json_loads lim (json_dumps [(lit ''content'', v)]) =
        Inr (PDict [(lit ''content'', PStr str)])"
    using json_loads_content by blast
qed

subsection \<open>The claims\<close>











text \<open>
  C4. There are arguments that are valid JSON but not a JSON object, such as \<^verbatim>\<open>5\<close>,
  \<^verbatim>\<open>[1,2]\<close> and \<^verbatim>\<open>null\<close>: \<^verbatim>\<open>json.loads\<close> returns a value, so the \<^verbatim>\<open>except\<close> clause is not
  entered, the call \<^verbatim>\<open>args.get\<close> raises \<^verbatim>\<open>AttributeError\<close>, and the process ends with a
  status that is not 0 and without a line on standard output. For \<^verbatim>\<open>5\<close> and \<^verbatim>\<open>null\<close> this
  holds whatever the limits of the interpreter are; \<^verbatim>\<open>[1,2]\<close> is decoded when there is room
  to open one container, and the process ends with status 1 and without a line in any
  case.
\<close>

theorem non_object_json_raises:
  \<open>json_loads lim (lit ''5'') = Inr (PInt 5) \<and>
   run rt lim [prog, lit ''5''] =
     \<lparr>stdout = [], uncaught = Some AttributeError, exit_status = 1\<rparr> \<and>
   json_loads lim (lit ''null'') = Inr PNone \<and>
   run rt lim [prog, lit ''null''] =
     \<lparr>stdout = [], uncaught = Some AttributeError, exit_status = 1\<rparr> \<and>
   (0 < recursion_limit lim \<longrightarrow>
      json_loads lim (lit ''[1,2]'') = Inr (PList [PInt 1, PInt 2]) \<and>
      run rt lim [prog, lit ''[1,2]''] =
        \<lparr>stdout = [], uncaught = Some AttributeError, exit_status = 1\<rparr>) \<and>
   stdout (run rt lim [prog, lit ''[1,2]'']) = [] \<and>
   exit_status (run rt lim [prog, lit ''[1,2]'']) = 1\<close>
proof -
  have five: "json_loads lim (lit ''5'') = Inr (PInt 5)"
    and null: "json_loads lim (lit ''null'') = Inr PNone"
    by (simp_all add: loads_eval lit_def)
  have list: "json_loads lim (lit ''[1,2]'') =
      (if recursion_limit lim = 0 then Inl RecursionError else Inr (PList [PInt 1, PInt 2]))"
    by (simp add: loads_eval lit_def)
  have "main rt lim [prog, lit ''5''] = Inl AttributeError"
    using main_non_object [of "[prog, lit ''5'']" lim "PInt 5" rt] five by simp
  then have r5: "run rt lim [prog, lit ''5''] =
     \<lparr>stdout = [], uncaught = Some AttributeError, exit_status = 1\<rparr>"
    by (rule run_raised)
  have "main rt lim [prog, lit ''null''] = Inl AttributeError"
    using main_non_object [of "[prog, lit ''null'']" lim PNone rt] null by simp
  then have rn: "run rt lim [prog, lit ''null''] =
     \<lparr>stdout = [], uncaught = Some AttributeError, exit_status = 1\<rparr>"
    by (rule run_raised)
  have "main rt lim [prog, lit ''[1,2]''] =
      Inl (if recursion_limit lim = 0 then RecursionError else AttributeError)"
  proof (cases "recursion_limit lim = 0")
    case True
    then show ?thesis
      using main_other_error [of "[prog, lit ''[1,2]'']" lim RecursionError rt] list by simp
  next
    case False
    then show ?thesis
      using main_non_object [of "[prog, lit ''[1,2]'']" lim "PList [PInt 1, PInt 2]" rt] list
      by simp
  qed
  then have rl: "run rt lim [prog, lit ''[1,2]''] =
     \<lparr>stdout = [],
      uncaught = Some (if recursion_limit lim = 0 then RecursionError else AttributeError),
      exit_status = 1\<rparr>"
    by (rule run_raised)
  show ?thesis
    unfolding five null r5 rn rl list by simp
qed

theorem non_object_json_raises_witness:
  \<open>\<forall>rt. 0 < recursion_limit limits_3_11 \<and>
     json_loads limits_3_11 (lit ''[1,2]'') = Inr (PList [PInt 1, PInt 2]) \<and>
     run rt limits_3_11 [lit ''echo.py'', lit ''[1,2]''] =
       \<lparr>stdout = [], uncaught = Some AttributeError, exit_status = 1\<rparr>\<close>
proof
  fix rt
  have l: "0 < recursion_limit limits_3_11" by (simp add: limits_3_11_def)
  with non_object_json_raises [of limits_3_11 rt "lit ''echo.py''"]
  show \<open>0 < recursion_limit limits_3_11 \<and>
     json_loads limits_3_11 (lit ''[1,2]'') = Inr (PList [PInt 1, PInt 2]) \<and>
     run rt limits_3_11 [lit ''echo.py'', lit ''[1,2]''] =
       \<lparr>stdout = [], uncaught = Some AttributeError, exit_status = 1\<rparr>\<close>
    by blast
qed




text \<open>
  C5. Whenever the program writes to standard output, what it writes is a single line, and
  the line is valid JSON: \<^verbatim>\<open>json.loads\<close> decodes it to an object with exactly one key,
  \<^verbatim>\<open>"content"\<close>, whose value is a string. It does so in every interpreter that has room to
  open one container, whatever the limits were where the program ran.
\<close>

theorem output_is_json_line:
  assumes "stdout (run rt lim argv) \<noteq> []"
  shows "\<exists>line content.
     stdout (run rt lim argv) = print line \<and> 10 \<notin> set line \<and>
     (\<forall>lim'. 0 < recursion_limit lim' \<longrightarrow>
        json_loads lim' line = Inr (PDict [(lit ''content'', PStr content)]))"
proof -
  from main_shape [of lim argv rt] assms obtain v where
    "main rt lim argv = Inr (print (json_dumps [(lit ''content'', lit ''echo: '' @ v)]))"
    by (auto simp: run_def)
  then have "stdout (run rt lim argv) =
      print (json_dumps [(lit ''content'', lit ''echo: '' @ v)])"
    by (simp add: run_def)
  with printed_line [of "lit ''echo: '' @ v"] show ?thesis by blast
qed

theorem output_is_json_line_witness:
  \<open>\<forall>rt. stdout (run rt limits_3_11 [lit ''echo.py'', lit ''{"text":"a b"}'']) \<noteq> [] \<and>
     0 < recursion_limit limits_3_11 \<and>
     (\<exists>line content.
        stdout (run rt limits_3_11 [lit ''echo.py'', lit ''{"text":"a b"}'']) = print line \<and>
        10 \<notin> set line \<and>
        json_loads limits_3_11 line = Inr (PDict [(lit ''content'', PStr content)]))\<close>
proof
  fix rt
  have \<open>json_loads limits_3_11 ([lit ''echo.py'', lit ''{"text":"a b"}''] ! 1) =
      Inr (PDict [(lit ''text'', PStr (lit ''a b''))])\<close>
    by (simp add: loads_eval limits_3_11_def lit_def)
  then have n: \<open>stdout (run rt limits_3_11 [lit ''echo.py'', lit ''{"text":"a b"}'']) \<noteq> []\<close>
    using main_object [of \<open>[lit ''echo.py'', lit ''{"text":"a b"}'']\<close> limits_3_11
        "[(lit ''text'', PStr (lit ''a b''))]" rt]
    by (simp add: run_def print_def)
  have l: "0 < recursion_limit limits_3_11" by (simp add: limits_3_11_def)
  from n l output_is_json_line [OF n]
  show \<open>stdout (run rt limits_3_11 [lit ''echo.py'', lit ''{"text":"a b"}'']) \<noteq> [] \<and>
     0 < recursion_limit limits_3_11 \<and>
     (\<exists>line content.
        stdout (run rt limits_3_11 [lit ''echo.py'', lit ''{"text":"a b"}'']) = print line \<and>
        10 \<notin> set line \<and>
        json_loads limits_3_11 line = Inr (PDict [(lit ''content'', PStr content)]))\<close>
    by blast
qed










end
